theory Spec2Isabelle
  imports Main "HOL-Library.List_Lexorder" "HOL-Library.Char_ord"
begin

section \<open>JavaScript values\<close>

text \<open>
  The engine of \<^verbatim>\<open>src/env.ts\<close> stores and tests untyped JavaScript values: what
  \<^verbatim>\<open>JSON.parse\<close> returns, the bodies of HTTP responses, rejection reasons, the
  credential. They are modelled by one datatype. An object is the map of its own
  properties; an array is the object of its index properties. Numbers are the integers,
  which is all the code looks at (\<^verbatim>\<open>=== 502\<close> and truthiness).
\<close>

datatype jsval =
    JUndefined
  | JNull
  | JBool bool
  | JNum int
  | JStr string
  | JObj "string \<Rightarrow> jsval option"

datatype exn = TypeError | SyntaxError | Error string | Reason jsval

text \<open>Truthiness, as tested by \<^verbatim>\<open>||\<close>, \<^verbatim>\<open>&&\<close>, \<^verbatim>\<open>?:\<close> and \<^verbatim>\<open>if\<close>.\<close>

fun truthy :: "jsval \<Rightarrow> bool" where
  "truthy JUndefined = False"
| "truthy JNull = False"
| "truthy (JBool b) = b"
| "truthy (JNum n) = (n \<noteq> 0)"
| "truthy (JStr s) = (s \<noteq> [])"
| "truthy (JObj m) = True"

fun nullish :: "jsval \<Rightarrow> bool" where
  "nullish JUndefined = True"
| "nullish JNull = True"
| "nullish v = False"

text \<open>
  Property access \<^verbatim>\<open>v.k\<close> for the names the code reads (\<^verbatim>\<open>state\<close>, \<^verbatim>\<open>text\<close>,
  \<^verbatim>\<open>updateTime\<close>, \<^verbatim>\<open>version\<close>, \<^verbatim>\<open>reserved\<close>, \<^verbatim>\<open>latest\<close>): a TypeError on
  \<^verbatim>\<open>undefined\<close> and \<^verbatim>\<open>null\<close>, \<^verbatim>\<open>undefined\<close> on a primitive or a missing key.
\<close>

fun get_prop :: "jsval \<Rightarrow> string \<Rightarrow> exn + jsval" where
  "get_prop JUndefined k = Inl TypeError"
| "get_prop JNull k = Inl TypeError"
| "get_prop (JObj m) k = Inr (case m k of None \<Rightarrow> JUndefined | Some v \<Rightarrow> v)"
| "get_prop v k = Inr JUndefined"

text \<open>The property \<^verbatim>\<open>v.k\<close> where \<^verbatim>\<open>v\<close> is known not to be \<^verbatim>\<open>null\<close> or
  \<^verbatim>\<open>undefined\<close>.\<close>

definition field :: "jsval \<Rightarrow> string \<Rightarrow> jsval" where
  "field v k = (case get_prop v k of Inl e \<Rightarrow> JUndefined | Inr w \<Rightarrow> w)"

text \<open>\<^verbatim>\<open>a || b\<close> on values.\<close>

definition js_or :: "jsval \<Rightarrow> jsval \<Rightarrow> jsval" where
  "js_or a b = (if truthy a then a else b)"

subsection \<open>The lodash functions the engine calls\<close>

text \<open>
  The own enumerable string-keyed properties that \<^verbatim>\<open>_.assign\<close> copies from a
  source: the properties of an object, the indexed characters of a string, nothing for
  the other primitives.
\<close>

function dec :: "nat \<Rightarrow> string" where
  "dec n = (if n < 10 then [''0123456789'' ! n]
            else dec (n div 10) @ [''0123456789'' ! (n mod 10)])"
  by pat_completeness auto
termination
  by (relation "measure id") auto

fun own_props :: "jsval \<Rightarrow> (string \<Rightarrow> jsval option)" where
  "own_props (JObj m) = m"
| "own_props (JStr s) = map_of (map (\<lambda>i. (dec i, JStr [s ! i])) [0..<length s])"
| "own_props v = Map.empty"

text \<open>\<^verbatim>\<open>_.assign({}, a, b)\<close>: the sources are applied from left to right, a later one
  overwriting the keys of an earlier one.\<close>

definition lodash_assign :: "jsval \<Rightarrow> jsval \<Rightarrow> (string \<Rightarrow> jsval option)" where
  "lodash_assign a b = (Map.empty ++ own_props a) ++ own_props b"

text \<open>
  How \<^verbatim>\<open>_.get\<close> and \<^verbatim>\<open>_.set\<close> read a path string (\<^verbatim>\<open>castPath\<close> in lodash): when
  the object has a property whose name is the whole string, the path is that one key;
  otherwise the string is split into the names between its dots (the engine passes
  \<^verbatim>\<open>'response.statusCode'\<close> and \<^verbatim>\<open>'firebase.credential'\<close>, plain names and dots).
\<close>

fun stringToPath :: "string \<Rightarrow> string list" where
  "stringToPath [] = [[]]"
| "stringToPath (c # cs) =
     (if c = CHR ''.'' then [] # stringToPath cs
      else (case stringToPath cs of [] \<Rightarrow> [[c]] | k # ks \<Rightarrow> (c # k) # ks))"

definition castPath :: "(string \<Rightarrow> jsval option) \<Rightarrow> string \<Rightarrow> string list" where
  "castPath m path = (if m path \<noteq> None then [path] else stringToPath path)"

text \<open>
  \<^verbatim>\<open>_.get(v, path)\<close> walks the keys of the path and yields \<^verbatim>\<open>undefined\<close> as soon
  as a step is missing, also below \<^verbatim>\<open>null\<close> and \<^verbatim>\<open>undefined\<close>.
\<close>

fun baseGet :: "jsval \<Rightarrow> string list \<Rightarrow> jsval" where
  "baseGet v [] = v"
| "baseGet v (k # ks) =
     (case get_prop v k of Inl e \<Rightarrow> JUndefined | Inr w \<Rightarrow> baseGet w ks)"

definition lodash_get :: "jsval \<Rightarrow> string \<Rightarrow> jsval" where
  "lodash_get v path = baseGet v (castPath (own_props v) path)"

text \<open>
  \<^verbatim>\<open>_.set(obj, path, v)\<close>: every key of the path but the last keeps the object found
  there and puts a new empty object where there is none (or a primitive); the last key
  stores the value. \<open>lodash_set\<close> gives the properties of \<^verbatim>\<open>obj\<close> afterwards. An
  object that is kept is updated in place, so whoever else holds it sees the new entry:
  that effect is written out where the engine calls \<^verbatim>\<open>_.set\<close>, in the getter
  \<^verbatim>\<open>data\<close>.
\<close>

fun baseSet :: "(string \<Rightarrow> jsval option) \<Rightarrow> string list \<Rightarrow> jsval \<Rightarrow> (string \<Rightarrow> jsval option)" where
  "baseSet m [] v = m"
| "baseSet m [k] v = m(k \<mapsto> v)"
| "baseSet m (k # k' # ks) v =
     m(k \<mapsto> JObj (baseSet (case m k of Some (JObj n) \<Rightarrow> n | _ \<Rightarrow> Map.empty) (k' # ks) v))"

definition lodash_set :: "(string \<Rightarrow> jsval option) \<Rightarrow> string \<Rightarrow> jsval \<Rightarrow> (string \<Rightarrow> jsval option)" where
  "lodash_set m path v = baseSet m (castPath m path) v"

section \<open>The engine state\<close>

text \<open>
  A promise handed out by \<^verbatim>\<open>ready()\<close> is either settled already or pending; a
  pending one is named by a number, and \<open>settled\<close> logs each call of a listener's
  \<^verbatim>\<open>resolve\<close> or \<^verbatim>\<open>reject\<close>. An observer is named by a number as well, and
  \<open>notified\<close> logs each call of an observer with its argument; observers return
  normally. \<open>pending\<close> lists the HTTP requests in flight: the long poll on
  \<^verbatim>\<open>meta:watch\<close> with its \<^verbatim>\<open>newerThan\<close> bound, and the GET of a variable by name.
  The fields written \<^verbatim>\<open>_x\<close> in the source are \<open>uX\<close> here. Objects are held
  by value; \<open>customIsFromMeta\<close> records that \<^verbatim>\<open>_custom\<close> and \<^verbatim>\<open>_customFromMeta\<close>
  are one and the same object, so that an update in place of the one is an update of the
  other.
\<close>

datatype outcome = Fulfilled jsval | Rejected jsval

datatype promise = Settled outcome | Pending nat

datatype request = WatchReq jsval | VarReq jsval

record env =
  credential :: jsval
  lastUpdated :: jsval
  projectId :: jsval
  version :: jsval
  uCustom :: jsval
  uCustomFromMeta :: jsval
  uReserved :: jsval
  uMerged :: jsval
  customIsFromMeta :: bool
  uWatching :: bool
  uReady :: bool
  uReadyError :: jsval
  uReadyListeners :: "nat list"
  uObservers :: "nat list"
  nextPromise :: nat
  settled :: "(nat \<times> outcome) list"
  notified :: "(nat \<times> jsval) list"
  pending :: "request list"

abbreviation emptyObj :: jsval where
  "emptyObj \<equiv> JObj Map.empty"

subsection \<open>AbstractEnv\<close>

definition ready :: "env \<Rightarrow> promise \<times> env" where
  "ready s =
     (if uReady s then
        ((if truthy (uReadyError s) then Settled (Rejected (uReadyError s))
          else Settled (Fulfilled JUndefined)), s)
      else
        (Pending (nextPromise s),
         s\<lparr>uReadyListeners := uReadyListeners s @ [nextPromise s],
           nextPromise := Suc (nextPromise s)\<rparr>))"

definition observe :: "nat \<Rightarrow> env \<Rightarrow> env" where
  "observe callback s = s\<lparr>uObservers := uObservers s @ [callback]\<rparr>"

text \<open>The \<^verbatim>\<open>while\<close> loop of \<^verbatim>\<open>_notifyReady\<close>: shift a listener, settle it.\<close>

fun settle_listeners :: "jsval \<Rightarrow> nat list \<Rightarrow> (nat \<times> outcome) list \<Rightarrow> (nat \<times> outcome) list" where
  "settle_listeners err [] lg = lg"
| "settle_listeners err (l # ls) lg =
     settle_listeners err ls
       (lg @ [(l, if truthy err then Rejected err else Fulfilled JUndefined)])"

definition notifyReady :: "jsval \<Rightarrow> env \<Rightarrow> env" where
  "notifyReady err s =
     s\<lparr>uReady := True,
       settled := settle_listeners err (uReadyListeners s) (settled s),
       uReadyListeners := []\<rparr>"

text \<open>The \<^verbatim>\<open>for\<close> loop of \<^verbatim>\<open>_notifyObservers\<close>.\<close>

fun call_observers :: "jsval \<Rightarrow> nat list \<Rightarrow> (nat \<times> jsval) list \<Rightarrow> (nat \<times> jsval) list" where
  "call_observers dat [] lg = lg"
| "call_observers dat (ob # obs) lg = call_observers dat obs (lg @ [(ob, dat)])"

definition notifyObservers :: "jsval \<Rightarrow> env \<Rightarrow> env" where
  "notifyObservers dat s = s\<lparr>notified := call_observers dat (uObservers s) (notified s)\<rparr>"

subsection \<open>RuntimeConfigEnv\<close>

text \<open>
  \<^verbatim>\<open>watch()\<close> up to the request: under the guard it sets \<^verbatim>\<open>_watching\<close> and sends
  the long poll with the current \<^verbatim>\<open>lastUpdated\<close>.
\<close>

definition watch :: "env \<Rightarrow> env" where
  "watch s =
     (if \<not> uWatching s then
        s\<lparr>uWatching := True, pending := pending s @ [WatchReq (lastUpdated s)]\<rparr>
      else s)"

definition RuntimeConfigEnv :: "jsval \<Rightarrow> jsval \<Rightarrow> env" where
  "RuntimeConfigEnv cred proj =
     (let s = \<lparr>credential = cred,
                lastUpdated = JStr ''1970-01-01T00:00:00.000Z'',
                projectId = proj,
                version = JUndefined,
                uCustom = JUndefined,
                uCustomFromMeta = JUndefined,
                uReserved = JUndefined,
                uMerged = JUndefined,
                customIsFromMeta = False,
                uWatching = False,
                uReady = False,
                uReadyError = JUndefined,
                uReadyListeners = [],
                uObservers = [],
                nextPromise = 0,
                settled = [],
                notified = [],
                pending = []\<rparr>
      in if truthy cred \<and> truthy proj then watch s else s)"

text \<open>The setter \<^verbatim>\<open>_meta\<close>; reading \<^verbatim>\<open>meta.version\<close> throws when \<^verbatim>\<open>meta\<close> is
  \<^verbatim>\<open>null\<close>, before anything is written.\<close>

definition set_meta :: "jsval \<Rightarrow> env \<Rightarrow> exn + env" where
  "set_meta meta s =
     (if nullish meta then Inl TypeError
      else Inr (s\<lparr>version := js_or (field meta ''version'') (JStr ''v0''),
                  uReserved := js_or (field meta ''reserved'') emptyObj,
                  uMerged := JNull,
                  uCustomFromMeta :=
                    (if truthy (field meta ''latest'') then field meta ''latest''
                     else uCustomFromMeta s),
                  customIsFromMeta :=
                    (if truthy (field meta ''latest'') then False
                     else customIsFromMeta s)\<rparr>))"

text \<open>The two handlers of \<^verbatim>\<open>fetched.then\<close> in \<^verbatim>\<open>fetch()\<close>. The second reads
  \<^verbatim>\<open>err.stack\<close> first, which throws on \<^verbatim>\<open>null\<close> and \<^verbatim>\<open>undefined\<close>.\<close>

definition fetch_fulfilled :: "jsval \<Rightarrow> env \<Rightarrow> env" where
  "fetch_fulfilled dat s =
     notifyObservers dat
       (notifyReady JUndefined
          (s\<lparr>uMerged := JNull, uCustom := js_or dat emptyObj, customIsFromMeta := False\<rparr>))"

definition fetch_rejected :: "jsval \<Rightarrow> env \<Rightarrow> env" where
  "fetch_rejected err s =
     (if nullish err then s
      else notifyReady err
             (s\<lparr>uMerged := JNull, uCustom := emptyObj, customIsFromMeta := False\<rparr>))"

text \<open>\<^verbatim>\<open>fetchVar(name)\<close>: the version \<^verbatim>\<open>v0\<close> resolves to \<^verbatim>\<open>{}\<close> at once, any
  other name sends the GET, whose answer comes later.\<close>

definition fetchVar :: "jsval \<Rightarrow> env \<Rightarrow> jsval option \<times> env" where
  "fetchVar name s =
     (if name = JStr ''v0'' then (Some emptyObj, s)
      else (None, s\<lparr>pending := pending s @ [VarReq name]\<rparr>))"

text \<open>The handler of the GET in \<^verbatim>\<open>fetchVar\<close>: \<^verbatim>\<open>JSON.parse(response.text)\<close> under
  \<^verbatim>\<open>try\<close>. The \<^verbatim>\<open>catch\<close> block logs \<^verbatim>\<open>response.text\<close> and returns \<^verbatim>\<open>null\<close>: for
  a text that does not parse this is \<^verbatim>\<open>null\<close>, for a body that is \<^verbatim>\<open>null\<close> or
  \<^verbatim>\<open>undefined\<close> the second read throws again and the handler fails with that TypeError.
  \<open>JSON_parse\<close> is the platform's parser, a parameter: \<open>None\<close> when it throws.\<close>

definition fetchVar_response :: "(jsval \<Rightarrow> jsval option) \<Rightarrow> jsval \<Rightarrow> exn + jsval" where
  "fetchVar_response JSON_parse response =
     (case get_prop response ''text'' of
        Inl e \<Rightarrow> Inl TypeError
      | Inr t \<Rightarrow> (case JSON_parse t of None \<Rightarrow> Inr JNull | Some v \<Rightarrow> Inr v))"

text \<open>The error object a handler is rejected with when it throws.\<close>

fun thrown :: "exn \<Rightarrow> jsval" where
  "thrown TypeError = JObj [''name'' \<mapsto> JStr ''TypeError'']"
| "thrown SyntaxError = JObj [''name'' \<mapsto> JStr ''SyntaxError'']"
| "thrown (Error msg) = JObj [''name'' \<mapsto> JStr ''Error'', ''message'' \<mapsto> JStr msg]"
| "thrown (Reason v) = v"

text \<open>\<^verbatim>\<open>fetch()\<close>: \<^verbatim>\<open>this._customFromMeta || this.fetchVar(this.version)\<close>; a value
  at hand is reconciled before anything else runs, and \<^verbatim>\<open>_custom\<close> is then the very
  object \<^verbatim>\<open>_customFromMeta\<close> holds.\<close>

definition fetch :: "env \<Rightarrow> env" where
  "fetch s =
     (if truthy (uCustomFromMeta s)
      then (fetch_fulfilled (uCustomFromMeta s) s)\<lparr>customIsFromMeta := True\<rparr>
      else (case fetchVar (version s) s of
              (Some dat, s') \<Rightarrow> fetch_fulfilled dat s'
            | (None, s') \<Rightarrow> s'))"

text \<open>The two handlers of the long poll in \<^verbatim>\<open>watch()\<close>. \<open>Inl\<close> is a handler that
  throws or rejects: the promise of the cycle is then rejected.\<close>

definition watch_fulfilled :: "(jsval \<Rightarrow> jsval option) \<Rightarrow> jsval \<Rightarrow> env \<Rightarrow> exn + env" where
  "watch_fulfilled JSON_parse response s =
     (case get_prop response ''state'' of
        Inl e \<Rightarrow> Inl e
      | Inr st \<Rightarrow>
          if st = JStr ''UPDATED'' then
            (case JSON_parse (field response ''text'') of
               None \<Rightarrow> Inl SyntaxError
             | Some meta \<Rightarrow>
                 (case set_meta meta s of
                    Inl e \<Rightarrow> Inl e
                  | Inr s1 \<Rightarrow>
                      Inr (fetch (s1\<lparr>lastUpdated := field response ''updateTime''\<rparr>))))
          else if st = JStr ''DELETED'' then
            Inr ((notifyObservers emptyObj s)
                   \<lparr>uCustom := emptyObj,
                    customIsFromMeta := False,
                    version := JNull,
                    lastUpdated := field response ''updateTime''\<rparr>)
          else Inr s)"

definition watch_rejected :: "jsval \<Rightarrow> env \<Rightarrow> exn + env" where
  "watch_rejected err s =
     (if lodash_get err ''response.statusCode'' = JNum 502 then Inr s
      else Inl (Reason err))"

text \<open>The last \<^verbatim>\<open>then\<close> of \<^verbatim>\<open>watch()\<close> has a fulfilment handler only: it runs when
  the cycle's promise is fulfilled, and a rejected cycle skips it.\<close>

definition rearm :: "env \<Rightarrow> env" where
  "rearm s = watch (s\<lparr>uWatching := False\<rparr>)"

definition watch_cycle :: "(jsval \<Rightarrow> jsval option) \<Rightarrow> outcome \<Rightarrow> env \<Rightarrow> env" where
  "watch_cycle JSON_parse out s =
     (case (case out of
              Fulfilled response \<Rightarrow> watch_fulfilled JSON_parse response s
            | Rejected err \<Rightarrow> watch_rejected err s) of
        Inl e \<Rightarrow> s
      | Inr s' \<Rightarrow> rearm s')"

definition var_cycle :: "(jsval \<Rightarrow> jsval option) \<Rightarrow> outcome \<Rightarrow> env \<Rightarrow> env" where
  "var_cycle JSON_parse out s =
     (case out of
        Fulfilled response \<Rightarrow>
          (case fetchVar_response JSON_parse response of
             Inl e \<Rightarrow> fetch_rejected (thrown e) s
           | Inr dat \<Rightarrow> fetch_fulfilled dat s)
      | Rejected err \<Rightarrow> fetch_rejected err s)"

text \<open>The getter \<^verbatim>\<open>data\<close>. \<open>merge_snapshot\<close> is the object it builds from
  \<^verbatim>\<open>_custom\<close>, \<^verbatim>\<open>_reserved\<close> and \<^verbatim>\<open>credential\<close> when there is no cached one.\<close>

definition merge_snapshot :: "jsval \<Rightarrow> jsval \<Rightarrow> jsval \<Rightarrow> jsval" where
  "merge_snapshot custom reserved cred =
     JObj (if truthy cred
           then lodash_set (lodash_assign custom reserved) ''firebase.credential'' cred
           else lodash_assign custom reserved)"

text \<open>
  \<^verbatim>\<open>_.assign\<close> copies references: the \<^verbatim>\<open>firebase\<close> object of the new snapshot is the
  one \<^verbatim>\<open>_reserved\<close> holds or, when reserved has no such key, the one \<^verbatim>\<open>_custom\<close>
  holds. When \<^verbatim>\<open>_.set\<close> descends into it, the credential is written into that object,
  and so into \<^verbatim>\<open>_reserved\<close> or \<^verbatim>\<open>_custom\<close> as well.
\<close>

definition write_credential :: "jsval \<Rightarrow> jsval \<Rightarrow> jsval" where
  "write_credential cred v =
     (case v of
        JObj m \<Rightarrow>
          (case m ''firebase'' of
             Some (JObj n) \<Rightarrow> JObj (m(''firebase'' \<mapsto> JObj (n(''credential'' \<mapsto> cred))))
           | _ \<Rightarrow> v)
      | _ \<Rightarrow> v)"

definition set_in_place :: "env \<Rightarrow> env" where
  "set_in_place s =
     (if truthy (credential s)
         \<and> lodash_assign (uCustom s) (uReserved s) ''firebase.credential'' = None then
        (if own_props (uReserved s) ''firebase'' \<noteq> None then
           s\<lparr>uReserved := write_credential (credential s) (uReserved s)\<rparr>
         else
           s\<lparr>uCustom := write_credential (credential s) (uCustom s),
             uCustomFromMeta :=
               (if customIsFromMeta s then write_credential (credential s) (uCustomFromMeta s)
                else uCustomFromMeta s)\<rparr>)
      else s)"

definition data :: "env \<Rightarrow> exn + (jsval \<times> env)" where
  "data s =
     (if \<not> uReady s then Inl (Error ''Firebase: cannot access env before it is ready'')
      else if truthy (uMerged s) then Inr (uMerged s, s)
      else Inr (merge_snapshot (uCustom s) (uReserved s) (credential s),
                (set_in_place s)
                  \<lparr>uMerged := merge_snapshot (uCustom s) (uReserved s) (credential s)\<rparr>))"

section \<open>Runs of an engine\<close>

text \<open>
  What happens to an engine after its construction: a caller calls \<^verbatim>\<open>ready()\<close>,
  registers an observer or reads \<^verbatim>\<open>data\<close>, or one of the requests in flight
  completes, fulfilled with a response body or rejected with a reason (a failure to get
  the access token rejects the request as well). An event that completes a request which
  is not in flight cannot happen.
\<close>

datatype event = CallReady | CallObserve nat | ReadData | Complete nat outcome

definition step :: "(jsval \<Rightarrow> jsval option) \<Rightarrow> event \<Rightarrow> env \<Rightarrow> env option" where
  "step JSON_parse ev s =
     (case ev of
        CallReady \<Rightarrow> Some (snd (ready s))
      | CallObserve callback \<Rightarrow> Some (observe callback s)
      | ReadData \<Rightarrow> (case data s of Inl e \<Rightarrow> Some s | Inr (m, s') \<Rightarrow> Some s')
      | Complete i out \<Rightarrow>
          if i < length (pending s) then
            (let s0 = s\<lparr>pending := take i (pending s) @ drop (Suc i) (pending s)\<rparr>
             in case pending s ! i of
                  WatchReq newerThan \<Rightarrow> Some (watch_cycle JSON_parse out s0)
                | VarReq name \<Rightarrow> Some (var_cycle JSON_parse out s0))
          else None)"

fun run :: "(jsval \<Rightarrow> jsval option) \<Rightarrow> event list \<Rightarrow> env \<Rightarrow> env option" where
  "run JSON_parse [] s = Some s"
| "run JSON_parse (ev # evs) s =
     (case step JSON_parse ev s of None \<Rightarrow> None | Some s' \<Rightarrow> run JSON_parse evs s')"

section \<open>Sample inputs\<close>

text \<open>
  Concrete values for the examples below: a credential, a project, the parser
  \<^verbatim>\<open>JSON.parse\<close> on the texts the examples send (it throws on \<^verbatim>\<open>{oops\<close>),
  response bodies of the service and two transport errors.
\<close>

definition sample_credential :: jsval where
  "sample_credential = JObj [''kind'' \<mapsto> JStr ''certificate'']"

definition sample_env :: env where
  "sample_env = RuntimeConfigEnv sample_credential (JStr ''demo'')"

definition JSON_parse_sample :: "jsval \<Rightarrow> jsval option" where
  \<open>JSON_parse_sample t =
     (if t = JStr ''{"version":"v1"}'' then Some (JObj [''version'' \<mapsto> JStr ''v1''])
      else if t = JStr ''{"version":"v1","latest":{"a":1}}''
        then Some (JObj [''version'' \<mapsto> JStr ''v1'', ''latest'' \<mapsto> JObj [''a'' \<mapsto> JNum 1]])
      else if t = JStr ''{"version":"v2"}'' then Some (JObj [''version'' \<mapsto> JStr ''v2''])
      else if t = JStr ''{"version":"v3","reserved":{"x":1}}''
        then Some (JObj [''version'' \<mapsto> JStr ''v3'', ''reserved'' \<mapsto> JObj [''x'' \<mapsto> JNum 1]])
      else if t = JStr ''{"firebase.credential":1}''
        then Some (JObj [''firebase.credential'' \<mapsto> JNum 1])
      else if t = JStr ''{"a":1}'' then Some (JObj [''a'' \<mapsto> JNum 1])
      else if t = JStr ''{"x":0,"y":2}'' then Some (JObj [''x'' \<mapsto> JNum 0, ''y'' \<mapsto> JNum 2])
      else None)\<close>

definition updated :: "string \<Rightarrow> string \<Rightarrow> jsval" where
  "updated txt time =
     JObj [''state'' \<mapsto> JStr ''UPDATED'', ''text'' \<mapsto> JStr txt, ''updateTime'' \<mapsto> JStr time]"

definition deleted :: "string \<Rightarrow> jsval" where
  "deleted time = JObj [''state'' \<mapsto> JStr ''DELETED'', ''updateTime'' \<mapsto> JStr time]"

definition variable :: "string \<Rightarrow> jsval" where
  "variable txt = JObj [''text'' \<mapsto> JStr txt]"

definition status_error :: "int \<Rightarrow> jsval" where
  "status_error code =
     JObj [''name'' \<mapsto> JStr ''StatusCodeError'', ''statusCode'' \<mapsto> JNum code,
           ''response'' \<mapsto> JObj [''statusCode'' \<mapsto> JNum code]]"

definition sample_fetching :: env where
  \<open>sample_fetching =
     watch_cycle JSON_parse_sample
       (Fulfilled (updated ''{"version":"v1"}'' ''2016-11-01T10:00:00.000Z''))
       ((snd (ready (observe 7 sample_env)))\<lparr>pending := []\<rparr>)\<close>

section \<open>Invariants of a run\<close>

text \<open>An engine that never started its watch loop: nothing in flight, not ready, every
  promise handed out still queued.\<close>

definition idle :: "env \<Rightarrow> bool" where
  "idle s \<longleftrightarrow> pending s = [] \<and> \<not> uWatching s \<and> \<not> uReady s \<and> settled s = []
     \<and> uReadyListeners s = [0..<nextPromise s]"

text \<open>A cached snapshot was built from the reserved half and the credential the engine
  holds now, and from the custom half it holds now unless that half has been emptied
  since.\<close>

definition cache_inv :: "jsval \<Rightarrow> env \<Rightarrow> bool" where
  "cache_inv cred s \<longleftrightarrow> credential s = cred \<and>
     (truthy (uMerged s) \<longrightarrow>
        (\<exists>c. uMerged s = merge_snapshot c (uReserved s) cred
            \<and> (c = uCustom s \<or> uCustom s = emptyObj)))"

text \<open>Every promise handed out is queued or settled, never both and never twice, and a
  ready engine has an empty queue.\<close>

definition promise_inv :: "env \<Rightarrow> bool" where
  "promise_inv s \<longleftrightarrow>
     distinct (uReadyListeners s @ map fst (settled s))
     \<and> (\<forall>l \<in> set (uReadyListeners s) \<union> fst ` set (settled s). l < nextPromise s)
     \<and> (uReady s \<longrightarrow> uReadyListeners s = [])"

section \<open>Properties named by the claims\<close>

text \<open>The value a key has after merging, in the words of the specification: the value
  of reserved when reserved has the key, the value of custom otherwise.\<close>

definition reserved_over_custom :: "jsval \<Rightarrow> jsval \<Rightarrow> string \<Rightarrow> jsval option" where
  "reserved_over_custom custom reserved k =
     (case own_props reserved k of Some v \<Rightarrow> Some v | None \<Rightarrow> own_props custom k)"

text \<open>Timestamps are ISO-8601 strings of one format, ordered as strings.\<close>

fun ts_le :: "jsval \<Rightarrow> jsval \<Rightarrow> bool" where
  "ts_le (JStr a) (JStr b) = (a \<le> b)"
| "ts_le v w = False"

fun earlier :: "jsval \<Rightarrow> jsval \<Rightarrow> bool" where
  "earlier (JStr a) (JStr b) = (a < b)"
| "earlier v w = False"

fun is_watch :: "request \<Rightarrow> bool" where
  "is_watch (WatchReq newerThan) = True"
| "is_watch (VarReq name) = False"

text \<open>A server that answers a long poll with \<^verbatim>\<open>UPDATED\<close> or \<^verbatim>\<open>DELETED\<close> only with
  an \<^verbatim>\<open>updateTime\<close> not earlier than the \<open>lastUpdated\<close> the engine holds.\<close>

definition timely_event :: "env \<Rightarrow> event \<Rightarrow> bool" where
  "timely_event s ev =
     (case ev of
        Complete i out \<Rightarrow>
          (case out of
             Fulfilled r \<Rightarrow>
               (if i < length (pending s) \<and> is_watch (pending s ! i)
                   \<and> (field r ''state'' = JStr ''UPDATED'' \<or> field r ''state'' = JStr ''DELETED'')
                then ts_le (lastUpdated s) (field r ''updateTime'')
                else True)
           | Rejected e \<Rightarrow> True)
      | _ \<Rightarrow> True)"

fun timely :: "(jsval \<Rightarrow> jsval option) \<Rightarrow> event list \<Rightarrow> env \<Rightarrow> bool" where
  "timely JSON_parse [] s = True"
| "timely JSON_parse (ev # evs) s =
     (timely_event s ev \<and>
      (case step JSON_parse ev s of None \<Rightarrow> True | Some s' \<Rightarrow> timely JSON_parse evs s'))"


section \<open>Sample runs\<close>


text \<open>An observer and a caller of \<^verbatim>\<open>ready()\<close>, version v1 announced, its GET fails.\<close>

definition sample_failed :: env where
  \<open>sample_failed =
     the (run JSON_parse_sample
            [CallObserve 7, CallReady,
             Complete 0 (Fulfilled (updated ''{"version":"v1"}'' ''2016-11-01T10:00:00.000Z'')),
             Complete 0 (Rejected (status_error 500))]
            sample_env)\<close>

text \<open>Version v1 fetched, \<^verbatim>\<open>data\<close> read, then the configuration deleted.\<close>

definition sample_stale :: env where
  \<open>sample_stale =
     the (run JSON_parse_sample
            [Complete 0 (Fulfilled (updated ''{"version":"v1"}'' ''2016-11-01T10:00:00.000Z'')),
             Complete 0 (Fulfilled (variable ''{"a":1}'')),
             ReadData,
             Complete 0 (Fulfilled (deleted ''2016-11-02T10:00:00.000Z''))]
            sample_env)\<close>

text \<open>Version v1 announced with its configuration inlined, then version v2 without.\<close>

definition sample_sticky :: env where
  \<open>sample_sticky =
     the (run JSON_parse_sample
            [Complete 0 (Fulfilled (updated ''{"version":"v1","latest":{"a":1}}''
                                      ''2016-11-01T10:00:00.000Z'')),
             Complete 0 (Fulfilled (updated ''{"version":"v2"}'' ''2016-11-02T10:00:00.000Z''))]
            sample_env)\<close>

text \<open>An update stamped 2 November, then a deletion stamped 1 November.\<close>

definition sample_advanced :: env where
  \<open>sample_advanced =
     the (run JSON_parse_sample
            [Complete 0 (Fulfilled (updated ''{"version":"v1","latest":{"a":1}}''
                                      ''2016-11-02T10:00:00.000Z''))]
            sample_env)\<close>

definition sample_regressed :: env where
  "sample_regressed =
     the (run JSON_parse_sample
            [Complete 0 (Fulfilled (deleted ''2016-11-01T10:00:00.000Z''))]
            sample_advanced)"


section \<open>Loops as maps\<close>

lemma settle_listeners_eq:
  "settle_listeners err ls lg =
     lg @ map (\<lambda>l. (l, if truthy err then Rejected err else Fulfilled JUndefined)) ls"
  by (induction ls arbitrary: lg) auto

lemma call_observers_eq:
  "call_observers dat obs lg = lg @ map (\<lambda>ob. (ob, dat)) obs"
  by (induction obs arbitrary: lg) auto

lemmas sample_defs =
  sample_env_def RuntimeConfigEnv_def watch_def sample_credential_def
  updated_def deleted_def variable_def status_error_def JSON_parse_sample_def

section \<open>The DELETED event\<close>

text \<open>
  Claim C6. When the long poll in flight is answered with a body whose \<^verbatim>\<open>state\<close> is
  \<^verbatim>\<open>DELETED\<close>, the engine calls every registered observer, in order, with an empty
  map, stores an empty map as custom configuration, sets \<open>version\<close> to \<^verbatim>\<open>null\<close> and
  \<open>lastUpdated\<close> to the \<^verbatim>\<open>updateTime\<close> of the response. No variable is fetched:
  the requests in flight afterwards are the former ones without the answered long poll,
  followed by the next long poll only. The reconciliation of \<^verbatim>\<open>fetch()\<close> is not
  entered: readiness, its listeners and the log of settled promises are as before.
\<close>

theorem deleted_clears_custom_without_fetch:
  assumes "i < length (pending s)" and "pending s ! i = WatchReq b"
    and "get_prop response ''state'' = Inr (JStr ''DELETED'')"
  shows "\<exists>s'. step JSON_parse (Complete i (Fulfilled response)) s = Some s'
      \<and> uCustom s' = emptyObj \<and> version s' = JNull
      \<and> lastUpdated s' = field response ''updateTime''
      \<and> notified s' = notified s @ map (\<lambda>ob. (ob, emptyObj)) (uObservers s)
      \<and> pending s' = take i (pending s) @ drop (Suc i) (pending s)
                        @ [WatchReq (field response ''updateTime'')]
      \<and> settled s' = settled s \<and> uReady s' = uReady s
      \<and> uReadyListeners s' = uReadyListeners s"
  using assms
  by (simp add: step_def watch_cycle_def watch_fulfilled_def rearm_def watch_def
      notifyObservers_def call_observers_eq)

theorem deleted_clears_custom_without_fetch_witness:
  "0 < length (pending (observe 7 sample_env))
   \<and> pending (observe 7 sample_env) ! 0 = WatchReq (JStr ''1970-01-01T00:00:00.000Z'')
   \<and> get_prop (deleted ''2016-11-01T10:00:00.000Z'') ''state'' = Inr (JStr ''DELETED'')
   \<and> (\<exists>s'. step JSON_parse_sample
               (Complete 0 (Fulfilled (deleted ''2016-11-01T10:00:00.000Z'')))
               (observe 7 sample_env) = Some s'
        \<and> uCustom s' = emptyObj \<and> version s' = JNull
        \<and> lastUpdated s' = JStr ''2016-11-01T10:00:00.000Z''
        \<and> notified s' = [(7, emptyObj)]
        \<and> pending s' = [WatchReq (JStr ''2016-11-01T10:00:00.000Z'')])"
proof -
  have h1: "0 < length (pending (observe 7 sample_env))"
    by (simp add: sample_defs observe_def)
  have h2: "pending (observe 7 sample_env) ! 0 = WatchReq (JStr ''1970-01-01T00:00:00.000Z'')"
    by (simp add: sample_defs observe_def)
  have h3: "get_prop (deleted ''2016-11-01T10:00:00.000Z'') ''state'' = Inr (JStr ''DELETED'')"
    by (simp add: deleted_def)
  show ?thesis
    using h1 h2 h3 deleted_clears_custom_without_fetch [OF h1 h2 h3, of JSON_parse_sample]
    by (auto simp add: sample_defs observe_def field_def)
qed

lemmas engine_defs =
  step_def watch_cycle_def watch_fulfilled_def watch_rejected_def set_meta_def fetch_def
  fetchVar_def fetch_fulfilled_def fetch_rejected_def notifyReady_def notifyObservers_def
  rearm_def field_def js_or_def ready_def observe_def var_cycle_def fetchVar_response_def
  data_def merge_snapshot_def lodash_assign_def lodash_get_def lodash_set_def castPath_def
  set_in_place_def write_credential_def settle_listeners_eq call_observers_eq

lemma sample_fetching_run:
  \<open>run JSON_parse_sample
     [CallObserve 7, CallReady,
      Complete 0 (Fulfilled (updated ''{"version":"v1"}'' ''2016-11-01T10:00:00.000Z''))]
     sample_env = Some sample_fetching\<close>
  by (simp add: sample_fetching_def engine_defs sample_defs)

lemma sample_fetching_pending:
  "pending sample_fetching = [VarReq (JStr ''v1''), WatchReq (JStr ''2016-11-01T10:00:00.000Z'')]"
  by (simp add: sample_fetching_def engine_defs sample_defs)

section \<open>Malformed variable payloads\<close>

text \<open>
  Claim C7. When the GET of a variable is answered with a body whose \<^verbatim>\<open>text\<close> does
  not parse as JSON, the handler of \<^verbatim>\<open>fetchVar\<close> yields \<^verbatim>\<open>null\<close> and raises
  nothing; the reconciliation then stores an empty map as custom configuration, marks the
  engine ready and resolves every queued caller of \<^verbatim>\<open>ready()\<close>, and a later
  \<^verbatim>\<open>ready()\<close> is resolved. The watch loop is not touched: the long poll in flight
  stays in flight, the guard and \<open>lastUpdated\<close> are as before.
\<close>

theorem malformed_variable_gives_empty_custom:
  assumes "i < length (pending s)" and "pending s ! i = VarReq name"
    and "get_prop response ''text'' = Inr t" and "JSON_parse t = None"
  shows "fetchVar_response JSON_parse response = Inr JNull
    \<and> (\<exists>s'. step JSON_parse (Complete i (Fulfilled response)) s = Some s'
          \<and> uCustom s' = emptyObj \<and> uMerged s' = JNull
          \<and> uReady s' \<and> uReadyListeners s' = []
          \<and> settled s' = settled s @ map (\<lambda>l. (l, Fulfilled JUndefined)) (uReadyListeners s)
          \<and> (\<not> truthy (uReadyError s) \<longrightarrow> fst (ready s') = Settled (Fulfilled JUndefined))
          \<and> pending s' = take i (pending s) @ drop (Suc i) (pending s)
          \<and> uWatching s' = uWatching s \<and> lastUpdated s' = lastUpdated s)"
  using assms
  by (simp add: step_def var_cycle_def fetchVar_response_def fetch_fulfilled_def
      notifyReady_def notifyObservers_def js_or_def ready_def settle_listeners_eq)

theorem malformed_variable_gives_empty_custom_witness:
  "0 < length (pending sample_fetching)
   \<and> pending sample_fetching ! 0 = VarReq (JStr ''v1'')
   \<and> get_prop (variable ''{oops'') ''text'' = Inr (JStr ''{oops'')
   \<and> JSON_parse_sample (JStr ''{oops'') = None
   \<and> fetchVar_response JSON_parse_sample (variable ''{oops'') = Inr JNull
   \<and> (\<exists>s'. step JSON_parse_sample (Complete 0 (Fulfilled (variable ''{oops''))) sample_fetching
             = Some s'
        \<and> uCustom s' = emptyObj \<and> uReady s' \<and> settled s' = [(0, Fulfilled JUndefined)]
        \<and> fst (ready s') = Settled (Fulfilled JUndefined)
        \<and> pending s' = [WatchReq (JStr ''2016-11-01T10:00:00.000Z'')] \<and> uWatching s')"
proof -
  have h1: "0 < length (pending sample_fetching)"
    by (simp add: sample_fetching_pending)
  have h2: "pending sample_fetching ! 0 = VarReq (JStr ''v1'')"
    by (simp add: sample_fetching_pending)
  have h3: "get_prop (variable ''{oops'') ''text'' = Inr (JStr ''{oops'')"
    by (simp add: variable_def)
  have h4: "JSON_parse_sample (JStr ''{oops'') = None"
    by (simp add: JSON_parse_sample_def)
  have st: "uReadyListeners sample_fetching = [0] \<and> settled sample_fetching = []
      \<and> uWatching sample_fetching \<and> \<not> truthy (uReadyError sample_fetching)"
    by (simp add: sample_fetching_def engine_defs sample_defs)
  show ?thesis
    using h1 h2 h3 h4 st malformed_variable_gives_empty_custom [where JSON_parse = JSON_parse_sample and t = "JStr ''{oops''", OF h1 h2 h3 h4]
    by (auto simp add: sample_fetching_pending)
qed

section \<open>An engine without credential or project\<close>

lemma idle_step: "idle s \<Longrightarrow> step P ev s = Some s' \<Longrightarrow> idle s'"
  by (cases ev) (auto simp: idle_def step_def ready_def observe_def data_def)

lemma idle_run: "idle s \<Longrightarrow> run P evs s = Some s' \<Longrightarrow> idle s'"
proof (induction evs arbitrary: s)
  case Nil
  then show ?case by simp
next
  case (Cons ev evs)
  then show ?case by (auto split: option.splits dest: idle_step)
qed

text \<open>
  Claim C10. An engine constructed with a falsy credential or a falsy project identifier
  never starts the watch loop: whatever the callers do afterwards, no request is in
  flight (so none can complete), the guard is clear, the engine is not ready, no promise
  has been settled, every promise \<^verbatim>\<open>ready()\<close> has handed out is still queued, and the
  next \<^verbatim>\<open>ready()\<close> hands out a pending promise again.
\<close>

theorem no_watch_without_credential_or_project:
  assumes "\<not> (truthy cred \<and> truthy proj)"
    and "run JSON_parse evs (RuntimeConfigEnv cred proj) = Some s"
  shows "pending s = [] \<and> \<not> uWatching s \<and> \<not> uReady s \<and> settled s = []
    \<and> uReadyListeners s = [0..<nextPromise s] \<and> fst (ready s) = Pending (nextPromise s)"
proof -
  have "idle (RuntimeConfigEnv cred proj)"
    using assms(1) by (auto simp: idle_def RuntimeConfigEnv_def)
  then have "idle s"
    using assms(2) by (rule idle_run)
  then show ?thesis
    by (simp add: idle_def ready_def)
qed

theorem no_watch_without_credential_or_project_witness:
  "\<not> (truthy sample_credential \<and> truthy JUndefined)
   \<and> (\<exists>s. run JSON_parse_sample [CallReady, ReadData, CallObserve 3, CallReady]
             (RuntimeConfigEnv sample_credential JUndefined) = Some s
        \<and> pending s = [] \<and> \<not> uReady s \<and> settled s = [] \<and> uReadyListeners s = [0, 1]
        \<and> fst (ready s) = Pending 2)"
proof -
  have h1: "\<not> (truthy sample_credential \<and> truthy JUndefined)"
    by simp
  obtain s where h2: "run JSON_parse_sample [CallReady, ReadData, CallObserve 3, CallReady]
             (RuntimeConfigEnv sample_credential JUndefined) = Some s" and n: "nextPromise s = 2"
    by (simp add: engine_defs RuntimeConfigEnv_def)
  show ?thesis
    using h1 h2 n no_watch_without_credential_or_project [OF h1 h2]
    by (auto simp: upt_rec)
qed

section \<open>A variable answered without a body\<close>

lemma null_body_takes_the_rejection_path:
  "nullish response \<Longrightarrow>
     var_cycle JSON_parse (Fulfilled response) s = fetch_rejected (thrown TypeError) s"
  by (cases response) (simp_all add: var_cycle_def fetchVar_response_def)

section \<open>The data getter\<close>


lemma assign_apply: "lodash_assign c r k = reserved_over_custom c r k"
  by (simp add: lodash_assign_def reserved_over_custom_def map_add_def split: option.splits)

lemma merge_snapshot_apply:
  "merge_snapshot c r cred =
     JObj (\<lambda>k. if \<not> truthy cred then reserved_over_custom c r k
               else if reserved_over_custom c r ''firebase.credential'' \<noteq> None
                 then (if k = ''firebase.credential'' then Some cred
                       else reserved_over_custom c r k)
               else (if k = ''firebase''
                     then Some (JObj ((case reserved_over_custom c r ''firebase'' of
                                         Some (JObj b) \<Rightarrow> b | _ \<Rightarrow> Map.empty)
                                      (''credential'' \<mapsto> cred)))
                     else reserved_over_custom c r k))"
  by (auto simp add: merge_snapshot_def lodash_set_def castPath_def assign_apply fun_eq_iff)

lemma own_props_str_not_obj: "own_props (JStr s) k \<noteq> Some (JObj n)"
  by (auto dest!: map_of_SomeD)

lemma own_props_write_credential:
  "own_props (write_credential cred v) k =
     (if k = ''firebase''
      then (case own_props v ''firebase'' of
              Some (JObj n) \<Rightarrow> Some (JObj (n(''credential'' \<mapsto> cred)))
            | x \<Rightarrow> x)
      else own_props v k)"
proof (cases v)
  case (JObj m)
  then show ?thesis
    by (auto simp add: write_credential_def split: option.splits jsval.splits)
next
  case (JStr s)
  have "own_props (JStr s) ''firebase'' = None \<or> (\<exists>t. own_props (JStr s) ''firebase'' = Some (JStr t))"
    by (cases "own_props (JStr s) ''firebase''") (auto dest!: map_of_SomeD)
  with JStr show ?thesis
    by (auto simp add: write_credential_def)
qed (simp_all add: write_credential_def)



lemma set_in_place_fields [simp]:
  "credential (set_in_place s) = credential s"
  "uReady (set_in_place s) = uReady s"
  "uMerged (set_in_place s) = uMerged s"
  by (simp_all add: set_in_place_def)

lemma set_in_place_emptyObj:
  "uCustom s = emptyObj \<Longrightarrow> uCustom (set_in_place s) = emptyObj"
  by (simp add: set_in_place_def write_credential_def)


lemma cache_inv_update [simp]:
  "cache_inv cred (s\<lparr>pending := p\<rparr>) = cache_inv cred s"
  "cache_inv cred (s\<lparr>uWatching := b\<rparr>) = cache_inv cred s"
  "cache_inv cred (s\<lparr>lastUpdated := a\<rparr>) = cache_inv cred s"
  "cache_inv cred (s\<lparr>version := a\<rparr>) = cache_inv cred s"
  "cache_inv cred (s\<lparr>customIsFromMeta := b\<rparr>) = cache_inv cred s"
  "cache_inv cred (s\<lparr>uCustomFromMeta := a\<rparr>) = cache_inv cred s"
  "cache_inv cred (s\<lparr>notified := n\<rparr>) = cache_inv cred s"
  "cache_inv cred (s\<lparr>uObservers := obs\<rparr>) = cache_inv cred s"
  "cache_inv cred (s\<lparr>uReadyListeners := ls\<rparr>) = cache_inv cred s"
  "cache_inv cred (s\<lparr>nextPromise := np\<rparr>) = cache_inv cred s"
  by (simp_all add: cache_inv_def)


lemma cache_inv_rearm [simp]: "cache_inv cred (rearm s) = cache_inv cred s"
  by (simp add: rearm_def watch_def)














text \<open>
  The credential is written in place: after the read, the \<^verbatim>\<open>firebase\<close> object of
  reserved (of custom, when reserved has no such key) is the one the snapshot holds.
\<close>

lemma data_writes_credential_in_place:
  assumes "uReady s" and "\<not> truthy (uMerged s)" and "truthy (credential s)"
    and "reserved_over_custom (uCustom s) (uReserved s) ''firebase.credential'' = None"
    and "data s = Inr (JObj m, s')"
  shows "own_props (uReserved s) ''firebase'' = Some (JObj b) \<Longrightarrow>
           own_props (uReserved s') ''firebase'' = m ''firebase''"
    and "own_props (uReserved s) ''firebase'' = None \<Longrightarrow>
         own_props (uCustom s) ''firebase'' = Some (JObj b) \<Longrightarrow>
           own_props (uCustom s') ''firebase'' = m ''firebase''"
proof -
  from assms have s': "s' = (set_in_place s)\<lparr>uMerged := JObj m\<rparr>"
    and m: "merge_snapshot (uCustom s) (uReserved s) (credential s) = JObj m"
    by (auto simp add: data_def)
  have mf: "m ''firebase'' =
      Some (JObj ((case reserved_over_custom (uCustom s) (uReserved s) ''firebase'' of
                     Some (JObj b) \<Rightarrow> b | _ \<Rightarrow> Map.empty)
                  (''credential'' \<mapsto> credential s)))"
    using m assms(3,4) unfolding merge_snapshot_apply by auto
  show "own_props (uReserved s) ''firebase'' = Some (JObj b) \<Longrightarrow>
           own_props (uReserved s') ''firebase'' = m ''firebase''"
    using assms(3,4) unfolding s' mf
    by (simp add: set_in_place_def assign_apply own_props_write_credential
        reserved_over_custom_def)
  show "own_props (uReserved s) ''firebase'' = None \<Longrightarrow>
         own_props (uCustom s) ''firebase'' = Some (JObj b) \<Longrightarrow>
           own_props (uCustom s') ''firebase'' = m ''firebase''"
    using assms(3,4) unfolding s' mf
    by (simp add: set_in_place_def assign_apply own_props_write_credential
        reserved_over_custom_def)
qed

section \<open>Promises are settled at most once\<close>

lemma promise_inv_cong:
  "uReadyListeners s' = uReadyListeners s \<Longrightarrow> settled s' = settled s \<Longrightarrow>
   nextPromise s' = nextPromise s \<Longrightarrow> uReady s' = uReady s \<Longrightarrow> promise_inv s' = promise_inv s"
  by (simp add: promise_inv_def)

lemma promise_inv_update [simp]:
  "promise_inv (s\<lparr>uMerged := a\<rparr>) = promise_inv s"
  "promise_inv (s\<lparr>uCustom := a\<rparr>) = promise_inv s"
  "promise_inv (s\<lparr>uReserved := a\<rparr>) = promise_inv s"
  "promise_inv (s\<lparr>uCustomFromMeta := a\<rparr>) = promise_inv s"
  "promise_inv (s\<lparr>customIsFromMeta := b\<rparr>) = promise_inv s"
  "promise_inv (s\<lparr>version := a\<rparr>) = promise_inv s"
  "promise_inv (s\<lparr>lastUpdated := a\<rparr>) = promise_inv s"
  "promise_inv (s\<lparr>uWatching := b\<rparr>) = promise_inv s"
  "promise_inv (s\<lparr>pending := p\<rparr>) = promise_inv s"
  "promise_inv (s\<lparr>notified := n\<rparr>) = promise_inv s"
  "promise_inv (s\<lparr>uObservers := obs\<rparr>) = promise_inv s"
  by (simp_all add: promise_inv_def)

lemma promise_inv_init: "promise_inv (RuntimeConfigEnv cred proj)"
  by (simp add: promise_inv_def RuntimeConfigEnv_def watch_def Let_def)

lemma promise_inv_notifyReady: "promise_inv s \<Longrightarrow> promise_inv (notifyReady err s)"
  by (auto simp add: promise_inv_def notifyReady_def settle_listeners_eq comp_def image_Un image_image)

lemma promise_inv_fetch_fulfilled: "promise_inv s \<Longrightarrow> promise_inv (fetch_fulfilled dat s)"
  by (simp add: fetch_fulfilled_def notifyObservers_def promise_inv_notifyReady)

lemma promise_inv_fetch_rejected: "promise_inv s \<Longrightarrow> promise_inv (fetch_rejected err s)"
  by (simp add: fetch_rejected_def promise_inv_notifyReady)

lemma promise_inv_fetch: "promise_inv s \<Longrightarrow> promise_inv (fetch s)"
  by (simp add: fetch_def fetchVar_def promise_inv_fetch_fulfilled)

lemma promise_inv_set_meta: "set_meta meta s = Inr s1 \<Longrightarrow> promise_inv s1 = promise_inv s"
  by (auto simp add: set_meta_def split: if_splits)

lemma promise_inv_watch_fulfilled:
  assumes "promise_inv s" and "watch_fulfilled P r s = Inr s'"
  shows "promise_inv s'"
proof -
  obtain st where st: "get_prop r ''state'' = Inr st"
    using assms(2) by (auto simp add: watch_fulfilled_def split: sum.splits)
  consider (upd) "st = JStr ''UPDATED''" | (del) "st = JStr ''DELETED''"
    | (other) "st \<noteq> JStr ''UPDATED''" "st \<noteq> JStr ''DELETED''"
    by blast
  then show ?thesis
  proof cases
    case upd
    with assms(2) st obtain meta s1 where s1: "set_meta meta s = Inr s1"
      and s': "s' = fetch (s1\<lparr>lastUpdated := field r ''updateTime''\<rparr>)"
      by (auto simp add: watch_fulfilled_def split: option.splits sum.splits)
    from assms(1) promise_inv_set_meta [OF s1] show ?thesis
      unfolding s' by (simp add: promise_inv_fetch)
  next
    case del
    with assms st show ?thesis
      by (auto simp add: watch_fulfilled_def notifyObservers_def)
  next
    case other
    with assms st show ?thesis
      by (auto simp add: watch_fulfilled_def)
  qed
qed

lemma promise_inv_rearm: "promise_inv (rearm s) = promise_inv s"
  by (simp add: rearm_def watch_def)

lemma promise_inv_watch_cycle: "promise_inv s \<Longrightarrow> promise_inv (watch_cycle P out s)"
  by (auto simp add: watch_cycle_def watch_rejected_def promise_inv_rearm
      split: sum.splits outcome.splits dest: promise_inv_watch_fulfilled)

lemma promise_inv_var_cycle: "promise_inv s \<Longrightarrow> promise_inv (var_cycle P out s)"
  by (cases out)
    (simp_all add: var_cycle_def promise_inv_fetch_fulfilled promise_inv_fetch_rejected
      split: sum.splits)

lemma promise_inv_ready: "promise_inv s \<Longrightarrow> promise_inv (snd (ready s))"
  by (auto simp add: promise_inv_def ready_def less_Suc_eq)

lemma promise_inv_data: "data s = Inr (m, s') \<Longrightarrow> promise_inv s' = promise_inv s"
  by (auto simp add: data_def set_in_place_def split: if_splits)

lemma promise_inv_step:
  assumes "promise_inv s" and "step P ev s = Some s'"
  shows "promise_inv s'"
proof (cases ev)
  case CallReady
  with assms show ?thesis
    by (auto simp add: step_def promise_inv_ready)
next
  case (CallObserve cb)
  with assms show ?thesis
    by (auto simp add: step_def observe_def)
next
  case ReadData
  with assms show ?thesis
    by (auto simp add: step_def split: sum.splits dest: promise_inv_data)
next
  case (Complete i out)
  with assms show ?thesis
    by (auto simp add: step_def Let_def promise_inv_watch_cycle promise_inv_var_cycle
        split: if_splits request.splits)
qed

lemma promise_inv_run: "promise_inv s \<Longrightarrow> run P evs s = Some s' \<Longrightarrow> promise_inv s'"
proof (induction evs arbitrary: s)
  case Nil
  then show ?case by simp
next
  case (Cons ev evs)
  then show ?case by (auto split: option.splits dest: promise_inv_step)
qed

lemma promises_settled_at_most_once:
  assumes "run JSON_parse evs (RuntimeConfigEnv cred proj) = Some s"
  shows "distinct (map fst (settled s))"
    and "set (uReadyListeners s) \<inter> fst ` set (settled s) = {}"
    and "uReady s \<Longrightarrow> uReadyListeners s = []"
proof -
  have "promise_inv s"
    using promise_inv_init assms by (rule promise_inv_run)
  then show "distinct (map fst (settled s))"
    and "set (uReadyListeners s) \<inter> fst ` set (settled s) = {}"
    and "uReady s \<Longrightarrow> uReadyListeners s = []"
    by (auto simp add: promise_inv_def)
qed

section \<open>Readiness after a failed first fetch\<close>

text \<open>
  Claim C1 says that every call of \<^verbatim>\<open>ready()\<close> on one engine yields the same outcome,
  and that after a failed first fetch a later call rejects with the captured error. The
  code does not do that: \<^verbatim>\<open>_notifyReady(err)\<close> rejects the queued listeners with
  \<^verbatim>\<open>err\<close> but never assigns \<^verbatim>\<open>_readyError\<close>, which \<^verbatim>\<open>ready()\<close> reads. In the run
  below a caller asks before the fetch of version v1 fails with a 500: its promise,
  number 0, is rejected with the error, while \<^verbatim>\<open>_readyError\<close> is still undefined and
  the next \<^verbatim>\<open>ready()\<close> returns a resolved promise.
\<close>

theorem ready_after_failed_fetch_resolves:
  \<open>run JSON_parse_sample
     [CallObserve 7, CallReady,
      Complete 0 (Fulfilled (updated ''{"version":"v1"}'' ''2016-11-01T10:00:00.000Z'')),
      Complete 0 (Rejected (status_error 500))]
     sample_env = Some sample_failed
   \<and> fst (ready (observe 7 sample_env)) = Pending 0
   \<and> settled sample_failed = [(0, Rejected (status_error 500))]
   \<and> uReady sample_failed
   \<and> uReadyError sample_failed = JUndefined
   \<and> fst (ready sample_failed) = Settled (Fulfilled JUndefined)\<close>
  by (simp add: sample_failed_def engine_defs sample_defs)

section \<open>Re-arming the watch loop\<close>







section \<open>The cache after a DELETED event\<close>

text \<open>
  Claim C3 says that the cached snapshot is invalidated whenever custom or reserved
  changes, also by a \<^verbatim>\<open>DELETED\<close> event. The \<^verbatim>\<open>DELETED\<close> branch of \<^verbatim>\<open>watch()\<close>
  assigns \<^verbatim>\<open>_custom\<close> and leaves \<^verbatim>\<open>_merged\<close>, unlike the setter \<^verbatim>\<open>_meta\<close> and both
  handlers of \<^verbatim>\<open>fetch()\<close>. In the run below version v1 with the variable \<^verbatim>\<open>{"a":1}\<close>
  is fetched, \<^verbatim>\<open>data\<close> is read, and the configuration is deleted: custom and reserved
  are empty then, their merge has no key \<^verbatim>\<open>a\<close>, and \<^verbatim>\<open>data\<close> still returns the cached
  object with \<^verbatim>\<open>a\<close> equal to 1.
\<close>

theorem deleted_leaves_stale_snapshot:
  \<open>run JSON_parse_sample
     [Complete 0 (Fulfilled (updated ''{"version":"v1"}'' ''2016-11-01T10:00:00.000Z'')),
      Complete 0 (Fulfilled (variable ''{"a":1}'')),
      ReadData,
      Complete 0 (Fulfilled (deleted ''2016-11-02T10:00:00.000Z''))]
     sample_env = Some sample_stale
   \<and> uCustom sample_stale = emptyObj
   \<and> uReserved sample_stale = emptyObj
   \<and> data sample_stale = Inr (uMerged sample_stale, sample_stale)
   \<and> field (uMerged sample_stale) ''a'' = JNum 1
   \<and> field (merge_snapshot (uCustom sample_stale) (uReserved sample_stale)
              (credential sample_stale)) ''a'' = JUndefined\<close>
  by (simp add: sample_stale_def engine_defs sample_defs)

section \<open>Inlined custom configuration\<close>

text \<open>
  Claim C4 says that an \<^verbatim>\<open>UPDATED\<close> response without \<^verbatim>\<open>latest\<close> triggers the fetch of
  the announced version, also after an earlier response that carried \<^verbatim>\<open>latest\<close>. The
  setter \<^verbatim>\<open>_meta\<close> assigns \<^verbatim>\<open>_customFromMeta\<close> when \<^verbatim>\<open>latest\<close> is present and never
  clears it, and \<^verbatim>\<open>fetch()\<close> prefers it to \<^verbatim>\<open>fetchVar\<close>. In the run below version v1
  arrives with \<^verbatim>\<open>latest = {"a":1}\<close>, then version v2 without \<^verbatim>\<open>latest\<close>: no GET of v2
  is in flight afterwards (the next long poll only), and the custom configuration under
  version v2 is the one inlined for v1.
\<close>

theorem stale_latest_suppresses_fetch:
  \<open>run JSON_parse_sample
     [Complete 0 (Fulfilled (updated ''{"version":"v1","latest":{"a":1}}''
                               ''2016-11-01T10:00:00.000Z'')),
      Complete 0 (Fulfilled (updated ''{"version":"v2"}'' ''2016-11-02T10:00:00.000Z''))]
     sample_env = Some sample_sticky
   \<and> JSON_parse_sample (JStr ''{"version":"v2"}'') = Some (JObj [''version'' \<mapsto> JStr ''v2''])
   \<and> version sample_sticky = JStr ''v2''
   \<and> pending sample_sticky = [WatchReq (JStr ''2016-11-02T10:00:00.000Z'')]
   \<and> field (uCustom sample_sticky) ''a'' = JNum 1
   \<and> notified sample_sticky = []\<close>
  by (simp add: sample_sticky_def engine_defs sample_defs)

section \<open>The reconciliation step\<close>

text \<open>
  Claim C5, as stated, fails: the rejection handler of \<^verbatim>\<open>fetch()\<close> does not call
  \<^verbatim>\<open>_notifyObservers\<close>. Counterexample: an observer is registered, version v1 is
  announced and its GET fails with a 500; custom is the empty map and the observer has
  not been called.
\<close>

theorem failed_fetch_notifies_nobody:
  \<open>step JSON_parse_sample (Complete 0 (Rejected (status_error 500))) sample_fetching
     = Some sample_failed
   \<and> uObservers sample_fetching = [7]
   \<and> notified sample_fetching = []
   \<and> uCustom sample_failed = emptyObj
   \<and> notified sample_failed = []\<close>
  by (simp add: sample_failed_def sample_fetching_def engine_defs sample_defs)

text \<open>
  Claim C5, amended. After a successful fetch the reconciliation stores the fetched value
  as custom (an empty map when that value is falsy), invalidates the cache, marks the
  engine ready, resolves every queued caller of \<^verbatim>\<open>ready()\<close> once and empties the
  queue, and, when the fetched value is truthy, calls every registered observer in order
  with the new custom value. After a fetch that failed with an error object it stores an
  empty map as custom, invalidates the cache, marks the engine ready, rejects every
  queued caller once with that error, and calls no observer.
\<close>

theorem reconciliation_after_fetch:
  "uCustom (fetch_fulfilled dat s) = js_or dat emptyObj
   \<and> uMerged (fetch_fulfilled dat s) = JNull
   \<and> uReady (fetch_fulfilled dat s)
   \<and> uReadyListeners (fetch_fulfilled dat s) = []
   \<and> settled (fetch_fulfilled dat s)
       = settled s @ map (\<lambda>l. (l, Fulfilled JUndefined)) (uReadyListeners s)
   \<and> (truthy dat \<longrightarrow>
        notified (fetch_fulfilled dat s)
          = notified s @ map (\<lambda>ob. (ob, uCustom (fetch_fulfilled dat s))) (uObservers s))
   \<and> (truthy err \<longrightarrow>
        uCustom (fetch_rejected err s) = emptyObj
        \<and> uMerged (fetch_rejected err s) = JNull
        \<and> uReady (fetch_rejected err s)
        \<and> uReadyListeners (fetch_rejected err s) = []
        \<and> settled (fetch_rejected err s)
            = settled s @ map (\<lambda>l. (l, Rejected err)) (uReadyListeners s)
        \<and> notified (fetch_rejected err s) = notified s)"
proof -
  have nn: "truthy err \<Longrightarrow> \<not> nullish err"
    by (cases err) simp_all
  show ?thesis
    by (simp add: fetch_fulfilled_def fetch_rejected_def notifyReady_def notifyObservers_def
        js_or_def settle_listeners_eq call_observers_eq nn)
qed

theorem reconciliation_after_fetch_witness:
  "truthy (JObj [''a'' \<mapsto> JNum 1]) \<and> truthy (status_error 500)
   \<and> uReadyListeners sample_fetching = [0] \<and> uObservers sample_fetching = [7]
   \<and> uCustom (fetch_fulfilled (JObj [''a'' \<mapsto> JNum 1]) sample_fetching) = JObj [''a'' \<mapsto> JNum 1]
   \<and> settled (fetch_fulfilled (JObj [''a'' \<mapsto> JNum 1]) sample_fetching) = [(0, Fulfilled JUndefined)]
   \<and> notified (fetch_fulfilled (JObj [''a'' \<mapsto> JNum 1]) sample_fetching)
        = [(7, JObj [''a'' \<mapsto> JNum 1])]
   \<and> uCustom (fetch_rejected (status_error 500) sample_fetching) = emptyObj
   \<and> settled (fetch_rejected (status_error 500) sample_fetching)
        = [(0, Rejected (status_error 500))]
   \<and> notified (fetch_rejected (status_error 500) sample_fetching) = []"
proof -
  have h1: "truthy (JObj [''a'' \<mapsto> JNum 1])" by simp
  have h2: "truthy (status_error 500)" by (simp add: status_error_def)
  have st: "uReadyListeners sample_fetching = [0] \<and> uObservers sample_fetching = [7]
      \<and> settled sample_fetching = [] \<and> notified sample_fetching = []"
    by (simp add: sample_fetching_def engine_defs sample_defs)
  show ?thesis
    using h1 h2 st reconciliation_after_fetch [of "JObj [''a'' \<mapsto> JNum 1]" sample_fetching "status_error 500"]
    by (simp add: js_or_def)
qed

section \<open>The timestamp of the last update\<close>

text \<open>
  Claim C9, as stated, fails: \<^verbatim>\<open>watch()\<close> assigns \<^verbatim>\<open>response.updateTime\<close> to
  \<open>lastUpdated\<close> without comparing. Counterexample: an update stamped 2 November is
  followed by a deletion stamped 1 November, and \<open>lastUpdated\<close> goes back.
\<close>

theorem lastUpdated_can_regress:
  \<open>run JSON_parse_sample
     [Complete 0 (Fulfilled (updated ''{"version":"v1","latest":{"a":1}}''
                               ''2016-11-02T10:00:00.000Z''))]
     sample_env = Some sample_advanced
   \<and> run JSON_parse_sample
     [Complete 0 (Fulfilled (deleted ''2016-11-01T10:00:00.000Z''))]
     sample_advanced = Some sample_regressed
   \<and> lastUpdated sample_advanced = JStr ''2016-11-02T10:00:00.000Z''
   \<and> lastUpdated sample_regressed = JStr ''2016-11-01T10:00:00.000Z''
   \<and> earlier (lastUpdated sample_regressed) (lastUpdated sample_advanced)\<close>
  by (simp add: sample_regressed_def sample_advanced_def engine_defs sample_defs)

lemma ts_le_trans: "ts_le a b \<Longrightarrow> ts_le b c \<Longrightarrow> ts_le a c"
  by (cases a; cases b; cases c) auto

lemma ts_le_refl_right: "ts_le a b \<Longrightarrow> ts_le b b"
  by (cases a; cases b) auto

lemma lastUpdated_fetch_fulfilled [simp]: "lastUpdated (fetch_fulfilled dat s) = lastUpdated s"
  by (simp add: fetch_fulfilled_def notifyReady_def notifyObservers_def)

lemma lastUpdated_fetch_rejected [simp]: "lastUpdated (fetch_rejected err s) = lastUpdated s"
  by (simp add: fetch_rejected_def notifyReady_def)

lemma lastUpdated_fetch [simp]: "lastUpdated (fetch s) = lastUpdated s"
  by (simp add: fetch_def fetchVar_def)

lemma lastUpdated_rearm [simp]: "lastUpdated (rearm s) = lastUpdated s"
  by (simp add: rearm_def watch_def)

lemma lastUpdated_var_cycle [simp]: "lastUpdated (var_cycle P out s) = lastUpdated s"
  by (cases out) (simp_all add: var_cycle_def split: sum.splits)

lemma lastUpdated_watch_fulfilled:
  assumes "watch_fulfilled P r s = Inr s'"
  shows "lastUpdated s' =
     (if field r ''state'' = JStr ''UPDATED'' \<or> field r ''state'' = JStr ''DELETED''
      then field r ''updateTime'' else lastUpdated s)"
proof -
  obtain st where st: "get_prop r ''state'' = Inr st"
    using assms by (auto simp add: watch_fulfilled_def split: sum.splits)
  then have f: "field r ''state'' = st"
    by (simp add: field_def)
  show ?thesis
    using assms st f
    by (auto simp add: watch_fulfilled_def set_meta_def notifyObservers_def
        split: if_splits option.splits)
qed

lemma lastUpdated_watch_cycle:
  "lastUpdated (watch_cycle P out s) = lastUpdated s
   \<or> (\<exists>r. out = Fulfilled r
         \<and> (field r ''state'' = JStr ''UPDATED'' \<or> field r ''state'' = JStr ''DELETED'')
         \<and> lastUpdated (watch_cycle P out s) = field r ''updateTime'')"
proof (cases out)
  case (Fulfilled r)
  show ?thesis
  proof (cases "watch_fulfilled P r s")
    case (Inl e)
    with Fulfilled show ?thesis by (simp add: watch_cycle_def)
  next
    case (Inr s')
    from lastUpdated_watch_fulfilled [OF Inr] Fulfilled Inr show ?thesis
      by (auto simp add: watch_cycle_def split: if_splits)
  qed
next
  case (Rejected e)
  then show ?thesis
    by (simp add: watch_cycle_def watch_rejected_def)
qed

lemma timely_step:
  assumes "step P ev s = Some s'" and "timely_event s ev" and "ts_le (lastUpdated s) (lastUpdated s)"
  shows "ts_le (lastUpdated s) (lastUpdated s')"
proof (cases ev)
  case CallReady
  with assms show ?thesis by (auto simp add: step_def ready_def split: if_splits)
next
  case (CallObserve cb)
  with assms show ?thesis by (auto simp add: step_def observe_def)
next
  case ReadData
  with assms show ?thesis
    by (auto simp add: step_def data_def set_in_place_def split: if_splits)
next
  case (Complete i out)
  let ?s0 = "s\<lparr>pending := take i (pending s) @ drop (Suc i) (pending s)\<rparr>"
  from assms(1) Complete have i: "i < length (pending s)"
    by (auto simp add: step_def split: if_splits)
  show ?thesis
  proof (cases "pending s ! i")
    case (VarReq name)
    with assms(1) Complete i have "s' = var_cycle P out ?s0"
      by (simp add: step_def)
    with assms(3) show ?thesis by simp
  next
    case (WatchReq b)
    with assms(1) Complete i have s': "s' = watch_cycle P out ?s0"
      by (simp add: step_def)
    from lastUpdated_watch_cycle [of P out ?s0]
    consider "lastUpdated s' = lastUpdated s"
      | r where "out = Fulfilled r"
          "field r ''state'' = JStr ''UPDATED'' \<or> field r ''state'' = JStr ''DELETED''"
          "lastUpdated s' = field r ''updateTime''"
      unfolding s' by auto
    then show ?thesis
    proof cases
      case 1
      with assms(3) show ?thesis by simp
    next
      case 2
      with assms(2) Complete i WatchReq show ?thesis
        by (simp add: timely_event_def)
    qed
  qed
qed

text \<open>
  Claim C9, amended. Over every sequence of events in which each answer to a long poll
  with state \<^verbatim>\<open>UPDATED\<close> or \<^verbatim>\<open>DELETED\<close> carries an \<^verbatim>\<open>updateTime\<close> that is a
  timestamp not earlier than the \<open>lastUpdated\<close> stored when it arrives, the stored
  \<open>lastUpdated\<close> never decreases.
\<close>

theorem lastUpdated_monotone_for_timely_server:
  assumes "run JSON_parse evs s = Some s'" and "timely JSON_parse evs s"
    and "ts_le (lastUpdated s) (lastUpdated s)"
  shows "ts_le (lastUpdated s) (lastUpdated s')"
  using assms
proof (induction evs arbitrary: s)
  case Nil
  then show ?case by simp
next
  case (Cons ev evs)
  from Cons.prems(1) obtain s1 where s1: "step JSON_parse ev s = Some s1"
    and r: "run JSON_parse evs s1 = Some s'"
    by (auto split: option.splits)
  from Cons.prems(2) s1 have te: "timely_event s ev" and t: "timely JSON_parse evs s1"
    by simp_all
  have a: "ts_le (lastUpdated s) (lastUpdated s1)"
    using s1 te Cons.prems(3) by (rule timely_step)
  then have "ts_le (lastUpdated s1) (lastUpdated s1)"
    by (rule ts_le_refl_right)
  with r t have "ts_le (lastUpdated s1) (lastUpdated s')"
    by (rule Cons.IH)
  with a show ?case
    by (rule ts_le_trans)
qed

theorem lastUpdated_monotone_for_timely_server_witness:
  \<open>ts_le (lastUpdated sample_env) (lastUpdated sample_env)
   \<and> timely JSON_parse_sample
        [Complete 0 (Fulfilled (updated ''{"version":"v1","latest":{"a":1}}''
                                  ''2016-11-01T10:00:00.000Z'')),
         Complete 0 (Fulfilled (deleted ''2016-11-02T10:00:00.000Z''))]
        sample_env
   \<and> (\<exists>s'. run JSON_parse_sample
        [Complete 0 (Fulfilled (updated ''{"version":"v1","latest":{"a":1}}''
                                  ''2016-11-01T10:00:00.000Z'')),
         Complete 0 (Fulfilled (deleted ''2016-11-02T10:00:00.000Z''))]
        sample_env = Some s'
        \<and> lastUpdated s' = JStr ''2016-11-02T10:00:00.000Z''
        \<and> ts_le (lastUpdated sample_env) (lastUpdated s'))\<close>
proof -
  have h3: "ts_le (lastUpdated sample_env) (lastUpdated sample_env)"
    by (simp add: sample_defs)
  have h2: \<open>timely JSON_parse_sample
        [Complete 0 (Fulfilled (updated ''{"version":"v1","latest":{"a":1}}''
                                  ''2016-11-01T10:00:00.000Z'')),
         Complete 0 (Fulfilled (deleted ''2016-11-02T10:00:00.000Z''))]
        sample_env\<close>
    by (simp add: timely_event_def engine_defs sample_defs)
  obtain s' where h1: \<open>run JSON_parse_sample
        [Complete 0 (Fulfilled (updated ''{"version":"v1","latest":{"a":1}}''
                                  ''2016-11-01T10:00:00.000Z'')),
         Complete 0 (Fulfilled (deleted ''2016-11-02T10:00:00.000Z''))]
        sample_env = Some s'\<close> and l: "lastUpdated s' = JStr ''2016-11-02T10:00:00.000Z''"
    by (simp add: engine_defs sample_defs)
  show ?thesis
    using h1 h2 h3 l lastUpdated_monotone_for_timely_server [OF h1 h2 h3]
    by auto
qed

end
